theory Spec2Isabelle
  imports Complex_Main
begin

section \<open>The circuit breaker of package overcurrent\<close>

text \<open>
  The breaker of \<^verbatim>\<open>src/unnamed/part_000\<close> is a struct guarded by one mutex. The model is
  sequential: every method takes the struct and returns its result with the updated
  struct. What a method reads from outside the struct is an argument: \<open>now\<close> is the
  reading of \<^verbatim>\<open>cb.clock.Now()\<close>, \<open>rnd\<close> the draw of \<^verbatim>\<open>rand.Float64()\<close>.
\<close>

subsection \<open>Time\<close>

text \<open>
  Instants and durations count nanoseconds, as \<^verbatim>\<open>time.Duration\<close> does. \<^verbatim>\<open>Time.Sub\<close> returns
  the difference as a \<^verbatim>\<open>Duration\<close>, an int64, and saturates at its least and greatest value.
\<close>

type_synonym time = int
type_synonym duration = int

definition Millisecond :: duration where
  "Millisecond = 1000000"

definition minDuration :: duration where
  "minDuration = - 9223372036854775808"

definition maxDuration :: duration where
  "maxDuration = 9223372036854775807"

definition time_Sub :: "time \<Rightarrow> time \<Rightarrow> duration" where
  "time_Sub t u =
     (let d = t - u
      in if d < minDuration then minDuration
         else if maxDuration < d then maxDuration
         else d)"

subsection \<open>Errors and states\<close>

text \<open>
  \<^verbatim>\<open>ErrCircuitOpen\<close> and \<^verbatim>\<open>ErrInvocationTimeout\<close> are package variables compared by
  identity; every other error value is an \<open>OtherError\<close>. A Go \<^verbatim>\<open>error\<close> that may be
  \<^verbatim>\<open>nil\<close> is an \<open>error option\<close>.
\<close>

datatype error = ErrCircuitOpen | ErrInvocationTimeout | OtherError string

text \<open>
  \<^verbatim>\<open>CircuitState\<close> is an int enumerated from 1; \<open>StateZero\<close> is the skipped value 0, which
  the state field holds between the struct literal and the first \<^verbatim>\<open>setState\<close>.
\<close>

datatype CircuitState = StateZero | StateOpen | StateClosed | StateHalfClosed | StateHardOpen

subsection \<open>The strategy interfaces\<close>

text \<open>
  A value of a Go interface is an object: its methods answer and may change the object.
  Such an object is a value of a codatatype whose selectors are the answers of the
  methods and the object left behind by each method. The types cover every possible
  implementation of the interface.

  \<^verbatim>\<open>TripCondition\<close>: \<^verbatim>\<open>ShouldTrip() bool\<close>, \<^verbatim>\<open>Failure()\<close>, \<^verbatim>\<open>Success()\<close>.
  \<^verbatim>\<open>backoff.Backoff\<close>: \<^verbatim>\<open>NextInterval() time.Duration\<close>, \<^verbatim>\<open>Reset()\<close>.
\<close>

codatatype TripCondition = TripCondition
  (tc_ShouldTrip: bool)
  (tc_afterShouldTrip: TripCondition)
  (tc_Failure: TripCondition)
  (tc_Success: TripCondition)

codatatype Backoff = Backoff
  (bo_NextInterval: duration)
  (bo_afterNextInterval: Backoff)
  (bo_Reset: Backoff)

text \<open>\<^verbatim>\<open>FailureInterpreter\<close>: \<^verbatim>\<open>ShouldTrip(err error) bool\<close>, called on non-nil errors only.\<close>

type_synonym FailureInterpreter = "error \<Rightarrow> bool"

text \<open>
  The \<^verbatim>\<open>MetricCollector\<close> is a sink. The model keeps the calls it has received, oldest
  first.
\<close>

datatype EventType =
  EventTypeShortCircuit | EventTypeRunDuration | EventTypeTimeout | EventTypeError
  | EventTypeBadRequest

datatype event =
  ReportNew int
  | ReportState CircuitState
  | ReportCount EventType
  | ReportDuration EventType duration

type_synonym MetricCollector = "event list"

subsection \<open>Default strategies\<close>

text \<open>
  Modelled from the spec: \<^verbatim>\<open>NewConsecutiveFailureTripCondition\<close> is not among the source
  files. Spec 4.4: ``trip after N consecutive failures since the last success (a plain
  counter reset to zero on success(), incremented on failure(), compared against
  threshold N)''. The object is the threshold and the counter.
\<close>

primcorec consecutiveFailureTripCondition :: "nat \<Rightarrow> nat \<Rightarrow> TripCondition" where
  "tc_ShouldTrip (consecutiveFailureTripCondition threshold count) = (threshold \<le> count)"
| "tc_afterShouldTrip (consecutiveFailureTripCondition threshold count) =
     consecutiveFailureTripCondition threshold count"
| "tc_Failure (consecutiveFailureTripCondition threshold count) =
     consecutiveFailureTripCondition threshold (count + 1)"
| "tc_Success (consecutiveFailureTripCondition threshold count) =
     consecutiveFailureTripCondition threshold 0"

definition NewConsecutiveFailureTripCondition :: "nat \<Rightarrow> TripCondition" where
  "NewConsecutiveFailureTripCondition threshold = consecutiveFailureTripCondition threshold 0"

text \<open>
  Modelled from the spec: \<^verbatim>\<open>NewAnyErrorFailureInterpreter\<close> is not among the source
  files. Spec 4.3: ``Default policy: any non-nil error counts.''
\<close>

definition NewAnyErrorFailureInterpreter :: FailureInterpreter where
  "NewAnyErrorFailureInterpreter = (\<lambda>err. True)"

text \<open>
  Modelled from the spec: the backoff generators belong to another package. Spec 4.5 and
  6: \<^verbatim>\<open>nextInterval()\<close> ``advances an internal schedule'', \<^verbatim>\<open>resetToBase()\<close> ``returns the
  schedule to its starting point''; the default is ``constant 1000 ms''. The constant
  generator has no schedule to advance; the doubling generator is the spec's example of
  exponential growth, holding its base and the interval it yields next.
\<close>

primcorec NewConstantBackoff :: "duration \<Rightarrow> Backoff" where
  "bo_NextInterval (NewConstantBackoff interval) = interval"
| "bo_afterNextInterval (NewConstantBackoff interval) = NewConstantBackoff interval"
| "bo_Reset (NewConstantBackoff interval) = NewConstantBackoff interval"

primcorec doublingBackoff :: "duration \<Rightarrow> duration \<Rightarrow> Backoff" where
  "bo_NextInterval (doublingBackoff base current) = current"
| "bo_afterNextInterval (doublingBackoff base current) = doublingBackoff base (2 * current)"
| "bo_Reset (doublingBackoff base current) = doublingBackoff base base"

subsection \<open>The breaker\<close>

text \<open>
  The struct \<^verbatim>\<open>circuitBreaker\<close>, without its mutex and its clock (the clock's readings are
  arguments). \<open>None\<close> is the nil pointer of \<^verbatim>\<open>lastFailureTime\<close> and \<^verbatim>\<open>resetTimeout\<close>.
  The retry probability and the random draw are \<^verbatim>\<open>float64\<close> values that the code only
  compares; they are real numbers here.
\<close>

record circuitBreaker =
  invocationTimeout :: duration
  halfClosedRetryProbability :: real
  maxConcurrency :: int
  maxConcurrencyTimeout :: duration
  resetBackoff :: Backoff
  failureInterpreter :: FailureInterpreter
  tripCondition :: TripCondition
  collector :: MetricCollector
  state :: CircuitState
  lastFailureTime :: "time option"
  resetTimeout :: "duration option"

definition report :: "event \<Rightarrow> circuitBreaker \<Rightarrow> circuitBreaker" where
  "report e cb = cb\<lparr>collector := collector cb @ [e]\<rparr>"

definition setState :: "CircuitState \<Rightarrow> circuitBreaker \<Rightarrow> circuitBreaker" where
  "setState s cb = (if state cb \<noteq> s then report (ReportState s) (cb\<lparr>state := s\<rparr>) else cb)"

text \<open>
  The options are closures over the struct in the source; here each is a constructor and
  \<open>config\<close> applies it. \<^verbatim>\<open>withClock\<close> has no counterpart, the clock being an argument.
\<close>

datatype BreakerConfigFunc =
  WithInvocationTimeout duration
  | WithHalfClosedRetryProbability real
  | WithResetBackoff Backoff
  | WithFailureInterpreter FailureInterpreter
  | WithTripCondition TripCondition
  | WithMaxConcurrency int
  | WithMaxConcurrencyTimeout duration
  | WithCollector MetricCollector

fun config :: "BreakerConfigFunc \<Rightarrow> circuitBreaker \<Rightarrow> circuitBreaker" where
  "config (WithInvocationTimeout timeout) cb = cb\<lparr>invocationTimeout := timeout\<rparr>"
| "config (WithHalfClosedRetryProbability probability) cb =
     cb\<lparr>halfClosedRetryProbability := probability\<rparr>"
| "config (WithResetBackoff b) cb = cb\<lparr>resetBackoff := b\<rparr>"
| "config (WithFailureInterpreter fi) cb = cb\<lparr>failureInterpreter := fi\<rparr>"
| "config (WithTripCondition tc) cb = cb\<lparr>tripCondition := tc\<rparr>"
| "config (WithMaxConcurrency n) cb = cb\<lparr>maxConcurrency := n\<rparr>"
| "config (WithMaxConcurrencyTimeout timeout) cb = cb\<lparr>maxConcurrencyTimeout := timeout\<rparr>"
| "config (WithCollector c) cb = cb\<lparr>collector := c\<rparr>"

definition defaultBreaker :: circuitBreaker where
  "defaultBreaker =
     \<lparr> invocationTimeout = 100 * Millisecond,
       halfClosedRetryProbability = 1 / 2,
       maxConcurrency = 100,
       maxConcurrencyTimeout = Millisecond * 100,
       resetBackoff = NewConstantBackoff (1000 * Millisecond),
       failureInterpreter = NewAnyErrorFailureInterpreter,
       tripCondition = NewConsecutiveFailureTripCondition 5,
       collector = [],
       state = StateZero,
       lastFailureTime = None,
       resetTimeout = None \<rparr>"

definition newCircuitBreaker :: "BreakerConfigFunc list \<Rightarrow> circuitBreaker" where
  "newCircuitBreaker configs =
     (let breaker = fold config configs defaultBreaker;
          breaker = report (ReportNew (maxConcurrency breaker)) breaker
      in setState StateClosed breaker)"

definition Trip :: "circuitBreaker \<Rightarrow> circuitBreaker" where
  "Trip cb = setState StateHardOpen cb"

definition Reset :: "circuitBreaker \<Rightarrow> circuitBreaker" where
  "Reset cb =
     (let cb = setState StateClosed cb;
          cb = cb\<lparr>resetTimeout := None\<rparr>;
          cb = cb\<lparr>resetBackoff := bo_Reset (resetBackoff cb)\<rparr>
      in cb\<lparr>tripCondition := tc_Success (tripCondition cb)\<rparr>)"

definition resetTimeoutElapsed :: "circuitBreaker \<Rightarrow> time \<Rightarrow> bool" where
  "resetTimeoutElapsed cb now =
     (if state cb \<noteq> StateOpen then False
      else case lastFailureTime cb of
        None \<Rightarrow> False
      | Some failed \<Rightarrow>
          (case resetTimeout cb of
             None \<Rightarrow> False
           | Some timeout \<Rightarrow> timeout \<le> time_Sub now failed))"

definition ShouldTry :: "circuitBreaker \<Rightarrow> time \<Rightarrow> real \<Rightarrow> bool \<times> circuitBreaker" where
  "ShouldTry cb now rnd =
     (if state cb = StateHardOpen then (False, cb)
      else
        let trip = tc_ShouldTrip (tripCondition cb);
            cb = cb\<lparr>tripCondition := tc_afterShouldTrip (tripCondition cb)\<rparr>
        in if \<not> trip then (True, setState StateClosed cb)
           else
             let cb = (if state cb = StateClosed
                       then cb\<lparr>resetBackoff := bo_Reset (resetBackoff cb)\<rparr> else cb);
                 cb = (if state cb \<noteq> StateOpen
                       then cb\<lparr>resetTimeout := Some (bo_NextInterval (resetBackoff cb)),
                               resetBackoff := bo_afterNextInterval (resetBackoff cb)\<rparr>
                       else cb)
             in if resetTimeoutElapsed cb now
                then (rnd < halfClosedRetryProbability cb, setState StateHalfClosed cb)
                else (False, setState StateOpen cb))"

definition MarkResult :: "circuitBreaker \<Rightarrow> error option \<Rightarrow> time \<Rightarrow> bool \<times> circuitBreaker" where
  "MarkResult cb err now =
     (case err of
        None \<Rightarrow> (True, Reset cb)
      | Some e \<Rightarrow>
          if e = ErrInvocationTimeout \<or> failureInterpreter cb e
          then (False, cb\<lparr>lastFailureTime := Some now,
                          tripCondition := tc_Failure (tripCondition cb)\<rparr>)
          else (True, Reset cb))"

text \<open>
  \<^verbatim>\<open>callWithTimeout\<close> races the function against a timer. \<open>f\<close> is what the function
  returns; \<open>timerFirst\<close> says which case of the \<^verbatim>\<open>select\<close> fires.
\<close>

definition callWithTimeout :: "error option \<Rightarrow> bool \<Rightarrow> duration \<Rightarrow> error option" where
  "callWithTimeout f timerFirst timeout =
     (if timeout = 0 then f
      else if timerFirst then Some ErrInvocationTimeout else f)"

text \<open>
  The arguments of one \<^verbatim>\<open>Call\<close>: the function's result and the outcome of the race, the
  clock readings inside \<^verbatim>\<open>ShouldTry\<close> and \<^verbatim>\<open>MarkResult\<close>, the random draw, and the
  measured duration.
\<close>

record invocation =
  inv_f :: "error option"
  inv_timerFirst :: bool
  inv_tryNow :: time
  inv_rnd :: real
  inv_elapsed :: duration
  inv_markNow :: time

definition Call :: "circuitBreaker \<Rightarrow> invocation \<Rightarrow> error option \<times> circuitBreaker" where
  "Call cb i =
     (let (allowed, cb) = ShouldTry cb (inv_tryNow i) (inv_rnd i)
      in if \<not> allowed
         then (Some ErrCircuitOpen, report (ReportCount EventTypeShortCircuit) cb)
         else
           let err = callWithTimeout (inv_f i) (inv_timerFirst i) (invocationTimeout cb);
               cb = report (ReportDuration EventTypeRunDuration (inv_elapsed i)) cb;
               (success, cb) = MarkResult cb err (inv_markNow i)
           in if \<not> success
              then if err = Some ErrInvocationTimeout
                   then (err, report (ReportCount EventTypeTimeout) cb)
                   else (err, report (ReportCount EventTypeError) cb)
              else if err \<noteq> None
                   then (err, report (ReportCount EventTypeBadRequest) cb)
                   else (err, cb))"

subsection \<open>Sequences of calls\<close>

datatype op =
  OpTrip
  | OpReset
  | OpShouldTry time real
  | OpMarkResult "error option" time
  | OpCall invocation

datatype out = Done | Answer bool | Returned "error option"

fun step :: "circuitBreaker \<Rightarrow> op \<Rightarrow> out \<times> circuitBreaker" where
  "step cb OpTrip = (Done, Trip cb)"
| "step cb OpReset = (Done, Reset cb)"
| "step cb (OpShouldTry now rnd) = (let (b, cb) = ShouldTry cb now rnd in (Answer b, cb))"
| "step cb (OpMarkResult err now) = (let (b, cb) = MarkResult cb err now in (Answer b, cb))"
| "step cb (OpCall i) = (let (err, cb) = Call cb i in (Returned err, cb))"

fun run :: "circuitBreaker \<Rightarrow> op list \<Rightarrow> out list \<times> circuitBreaker" where
  "run cb [] = ([], cb)"
| "run cb (x # xs) =
     (let (y, cb) = step cb x; (ys, cb) = run cb xs in (y # ys, cb))"

subsection \<open>Calls that keep a tripped breaker open, and denied attempts\<close>

text \<open>
  \<open>keepsTripped fi x\<close>: the call \<open>x\<close> does not reach the body of \<^verbatim>\<open>Reset\<close> on a breaker in
  state \<open>StateHardOpen\<close> whose failure interpreter is \<open>fi\<close>. That is every call but
  \<^verbatim>\<open>Reset()\<close> itself and a \<^verbatim>\<open>MarkResult\<close> of \<^verbatim>\<open>nil\<close> or of an error that is neither the
  timeout nor one the interpreter trips on: those fall through to \<^verbatim>\<open>cb.Reset()\<close>.
\<close>

fun keepsTripped :: "FailureInterpreter \<Rightarrow> op \<Rightarrow> bool" where
  "keepsTripped fi OpTrip = True"
| "keepsTripped fi OpReset = False"
| "keepsTripped fi (OpShouldTry now rnd) = True"
| "keepsTripped fi (OpMarkResult err now) =
     (case err of None \<Rightarrow> False | Some e \<Rightarrow> e = ErrInvocationTimeout \<or> fi e)"
| "keepsTripped fi (OpCall i) = True"

text \<open>
  \<open>denied x y\<close>: if \<open>x\<close> asks for an attempt, its result \<open>y\<close> refuses it: \<^verbatim>\<open>ShouldTry\<close> answers
  false, \<^verbatim>\<open>Call\<close> returns \<^verbatim>\<open>ErrCircuitOpen\<close>.
\<close>

fun denied :: "op \<Rightarrow> out \<Rightarrow> bool" where
  "denied (OpShouldTry now rnd) y = (y = Answer False)"
| "denied (OpCall i) y = (y = Returned (Some ErrCircuitOpen))"
| "denied x y = True"

subsection \<open>The earlier breaker\<close>

text \<open>
  \<^verbatim>\<open>src/breaker.go\<close> is the earlier implementation of the same breaker. Its struct and the
  path of its \<^verbatim>\<open>Reset\<close> are modelled for comparison. The struct \<^verbatim>\<open>CircuitBreakerConfig\<close> is
  not among the source files; its fields are those \<^verbatim>\<open>breaker.go\<close> reads.
\<close>

datatype legacyCircuitState = OpenState | ClosedState | HalfClosedState

record CircuitBreakerConfig =
  cfg_InvocationTimeout :: duration
  cfg_ResetBackoff :: Backoff
  cfg_HalfClosedRetryProbability :: real
  cfg_FailureInterpreter :: FailureInterpreter
  cfg_TripCondition :: TripCondition

record legacyCircuitBreaker =
  legacy_config :: CircuitBreakerConfig
  legacy_hardTrip :: bool
  legacy_lastState :: legacyCircuitState
  legacy_lastFailureTime :: "time option"
  legacy_resetTimeout :: "duration option"

definition recordSuccess :: "legacyCircuitBreaker \<Rightarrow> legacyCircuitBreaker" where
  "recordSuccess cb =
     (let cb = cb\<lparr>legacy_hardTrip := False\<rparr>;
          cb = cb\<lparr>legacy_lastFailureTime := None\<rparr>;
          cb = cb\<lparr>legacy_resetTimeout := None\<rparr>;
          cb = cb\<lparr>legacy_config :=
                 (legacy_config cb)\<lparr>cfg_ResetBackoff :=
                    bo_Reset (cfg_ResetBackoff (legacy_config cb))\<rparr>\<rparr>
      in cb\<lparr>legacy_config :=
              (legacy_config cb)\<lparr>cfg_TripCondition :=
                 tc_Success (cfg_TripCondition (legacy_config cb))\<rparr>\<rparr>)"

definition legacy_Reset :: "legacyCircuitBreaker \<Rightarrow> legacyCircuitBreaker" where
  "legacy_Reset cb = recordSuccess cb"

subsection \<open>Concrete breakers and calls\<close>

text \<open>
  A breaker that trips on the first failure, after one failure at time 0; the same
  breaker after the \<^verbatim>\<open>ShouldTry\<close> at 2 s that opens it; and after the \<^verbatim>\<open>ShouldTry\<close> at 3 s
  that half-closes it. The default backoff is constant, 1 s.
\<close>

definition trippedBreaker :: "real \<Rightarrow> circuitBreaker" where
  "trippedBreaker probability =
     snd (run (newCircuitBreaker [WithHalfClosedRetryProbability probability,
                 WithTripCondition (NewConsecutiveFailureTripCondition 1)])
              [OpMarkResult (Some (OtherError ''boom'')) 0])"

definition openBreaker :: "real \<Rightarrow> circuitBreaker" where
  "openBreaker probability = snd (ShouldTry (trippedBreaker probability) 2000000000 0)"

definition halfClosedBreaker :: "real \<Rightarrow> circuitBreaker" where
  "halfClosedBreaker probability = snd (ShouldTry (openBreaker probability) 3000000000 0)"

text \<open>The default breaker after one failure at time 7.\<close>

definition failedBreaker :: circuitBreaker where
  "failedBreaker =
     snd (run (newCircuitBreaker []) [OpMarkResult (Some (OtherError ''boom'')) 7])"

text \<open>
  An attempt is admitted, the breaker is tripped by hand, the attempt reports its
  success, and the next attempt asks; and the same without the first question. No call
  is \<^verbatim>\<open>Reset()\<close>.
\<close>

definition successAfterTrip :: "op list" where
  "successAfterTrip = [OpShouldTry 0 0, OpTrip, OpMarkResult None 1, OpShouldTry 2 0]"

definition tripThenSuccess :: "op list" where
  "tripThenSuccess = [OpTrip, OpMarkResult None 1, OpShouldTry 2 0]"

text \<open>One failure, then the \<^verbatim>\<open>ShouldTry\<close> that opens the breaker.\<close>

definition tripThenOpen :: "op list" where
  "tripThenOpen = [OpMarkResult (Some (OtherError ''boom'')) 0, OpShouldTry 2000000000 0]"

text \<open>A breaker whose failure interpreter ignores every error, and a call that fails.\<close>

definition ignoringBreaker :: circuitBreaker where
  "ignoringBreaker = newCircuitBreaker [WithFailureInterpreter (\<lambda>err. False)]"


text \<open>
  A breaker with a doubling backoff of base 100 that has tripped after two failures and
  gone from open to half-closed and back twice, so that its generator has advanced to 800.
  It is open, with a reset timeout of 400.
\<close>

definition wornBreaker :: circuitBreaker where
  "wornBreaker =
     snd (run (newCircuitBreaker [WithResetBackoff (doublingBackoff 100 100),
                 WithTripCondition (NewConsecutiveFailureTripCondition 2)])
              [OpMarkResult (Some (OtherError ''boom'')) 0,
               OpMarkResult (Some (OtherError ''boom'')) 1,
               OpShouldTry 2 0,
               OpShouldTry 200 0,
               OpShouldTry 201 0,
               OpShouldTry 500 0,
               OpShouldTry 501 0])"

text \<open>The same breaker after the next \<^verbatim>\<open>ShouldTry\<close>, which half-closes it and refuses.\<close>

definition wornHalfClosedBreaker :: circuitBreaker where
  "wornHalfClosedBreaker = snd (ShouldTry wornBreaker 502 (9 / 10))"

text \<open>
  A closed breaker that was given a doubling backoff already advanced to 800 and has
  recorded the one failure that trips it.
\<close>

definition handedOverBreaker :: circuitBreaker where
  "handedOverBreaker =
     snd (run (newCircuitBreaker [WithHalfClosedRetryProbability 1,
                 WithResetBackoff (doublingBackoff 100 800),
                 WithTripCondition (NewConsecutiveFailureTripCondition 1)])
              [OpMarkResult (Some (OtherError ''boom'')) 0])"

text \<open>A breaker with four of the five failures that trip it.\<close>

definition lastStrawBreaker :: circuitBreaker where
  "lastStrawBreaker =
     snd (run (newCircuitBreaker [])
              [OpMarkResult (Some (OtherError ''boom'')) 0,
               OpMarkResult (Some (OtherError ''boom'')) 1,
               OpMarkResult (Some (OtherError ''boom'')) 2,
               OpMarkResult (Some (OtherError ''boom'')) 3])"

section \<open>Properties\<close>

subsection \<open>Evaluation and field lemmas\<close>

lemmas exec_defs =
  newCircuitBreaker_def defaultBreaker_def setState_def report_def Trip_def Reset_def
  ShouldTry_def MarkResult_def Call_def callWithTimeout_def resetTimeoutElapsed_def
  time_Sub_def minDuration_def maxDuration_def Millisecond_def
  NewAnyErrorFailureInterpreter_def
  NewConsecutiveFailureTripCondition_def Let_def
  trippedBreaker_def openBreaker_def halfClosedBreaker_def failedBreaker_def

lemma setState_state [simp]: "state (setState s cb) = s"
  by (simp add: setState_def report_def)

lemma setState_fields [simp]:
  "lastFailureTime (setState s cb) = lastFailureTime cb"
  "resetTimeout (setState s cb) = resetTimeout cb"
  "resetBackoff (setState s cb) = resetBackoff cb"
  "tripCondition (setState s cb) = tripCondition cb"
  "failureInterpreter (setState s cb) = failureInterpreter cb"
  "halfClosedRetryProbability (setState s cb) = halfClosedRetryProbability cb"
  "invocationTimeout (setState s cb) = invocationTimeout cb"
  by (simp_all add: setState_def report_def)

lemma report_fields [simp]:
  "state (report e cb) = state cb"
  "lastFailureTime (report e cb) = lastFailureTime cb"
  "resetTimeout (report e cb) = resetTimeout cb"
  "resetBackoff (report e cb) = resetBackoff cb"
  "tripCondition (report e cb) = tripCondition cb"
  "failureInterpreter (report e cb) = failureInterpreter cb"
  "halfClosedRetryProbability (report e cb) = halfClosedRetryProbability cb"
  "invocationTimeout (report e cb) = invocationTimeout cb"
  by (simp_all add: report_def)

lemma Reset_fields:
  "state (Reset cb) = StateClosed"
  "resetTimeout (Reset cb) = None"
  "resetBackoff (Reset cb) = bo_Reset (resetBackoff cb)"
  "tripCondition (Reset cb) = tc_Success (tripCondition cb)"
  "lastFailureTime (Reset cb) = lastFailureTime cb"
  "failureInterpreter (Reset cb) = failureInterpreter cb"
  "invocationTimeout (Reset cb) = invocationTimeout cb"
  by (simp_all add: Reset_def Let_def)

lemma newCircuitBreaker_state: "state (newCircuitBreaker configs) = StateClosed"
  by (simp add: newCircuitBreaker_def Let_def)


lemma trippedBreaker_fields:
  "state (trippedBreaker p) = StateClosed"
  "tc_ShouldTrip (tripCondition (trippedBreaker p))"
  "lastFailureTime (trippedBreaker p) = Some 0"
  "resetTimeout (trippedBreaker p) = None"
  "halfClosedRetryProbability (trippedBreaker p) = p"
  by (simp_all add: exec_defs)

lemma openBreaker_fields:
  "state (openBreaker p) = StateOpen"
  "tc_ShouldTrip (tripCondition (openBreaker p))"
  "lastFailureTime (openBreaker p) = Some 0"
  "resetTimeout (openBreaker p) = Some 1000000000"
  "halfClosedRetryProbability (openBreaker p) = p"
  by (simp_all add: exec_defs)

lemma halfClosedBreaker_fields:
  "state (halfClosedBreaker p) = StateHalfClosed"
  "tc_ShouldTrip (tripCondition (halfClosedBreaker p))"
  "lastFailureTime (halfClosedBreaker p) = Some 0"
  "resetTimeout (halfClosedBreaker p) = Some 1000000000"
  "halfClosedRetryProbability (halfClosedBreaker p) = p"
  by (simp_all add: exec_defs)

subsection \<open>The branches of \<open>ShouldTry\<close>\<close>

lemma ShouldTry_no_trip:
  "state cb \<noteq> StateHardOpen \<Longrightarrow> \<not> tc_ShouldTrip (tripCondition cb) \<Longrightarrow>
   fst (ShouldTry cb now rnd) = True
   \<and> state (snd (ShouldTry cb now rnd)) = StateClosed
   \<and> resetBackoff (snd (ShouldTry cb now rnd)) = resetBackoff cb"
  by (simp add: ShouldTry_def Let_def)

lemma ShouldTry_trip_Open_elapsed:
  "state cb = StateOpen \<Longrightarrow> tc_ShouldTrip (tripCondition cb) \<Longrightarrow>
   lastFailureTime cb = Some failed \<Longrightarrow> resetTimeout cb = Some timeout \<Longrightarrow>
   timeout \<le> time_Sub now failed \<Longrightarrow>
   fst (ShouldTry cb now rnd) = (rnd < halfClosedRetryProbability cb)
   \<and> state (snd (ShouldTry cb now rnd)) = StateHalfClosed"
  by (simp add: ShouldTry_def resetTimeoutElapsed_def Let_def)

lemma ShouldTry_trip_not_Open:
  "state cb \<noteq> StateOpen \<Longrightarrow> state cb \<noteq> StateHardOpen \<Longrightarrow>
   tc_ShouldTrip (tripCondition cb) \<Longrightarrow>
   fst (ShouldTry cb now rnd) = False \<and> state (snd (ShouldTry cb now rnd)) = StateOpen"
  by (simp add: ShouldTry_def resetTimeoutElapsed_def Let_def)

subsection \<open>Manual trip\<close>

text \<open>
  What holds after \<open>Trip\<close>: along every sequence of calls that keep a tripped breaker
  open, the state stays \<open>StateHardOpen\<close>, every \<open>ShouldTry\<close> answers false and every \<open>Call\<close>
  returns \<open>ErrCircuitOpen\<close>.
\<close>

lemma step_HardOpen:
  "state cb = StateHardOpen \<Longrightarrow> keepsTripped (failureInterpreter cb) x \<Longrightarrow>
   denied x (fst (step cb x)) \<and> state (snd (step cb x)) = StateHardOpen
   \<and> failureInterpreter (snd (step cb x)) = failureInterpreter cb"
  by (cases x)
     (auto simp: Trip_def ShouldTry_def MarkResult_def Call_def report_def
           split: option.splits if_splits)

lemma run_HardOpen:
  "state cb = StateHardOpen \<Longrightarrow> list_all (keepsTripped (failureInterpreter cb)) ops \<Longrightarrow>
   list_all2 denied ops (fst (run cb ops)) \<and> state (snd (run cb ops)) = StateHardOpen"
proof (induction ops arbitrary: cb)
  case Nil
  then show ?case by simp
next
  case (Cons x xs)
  from Cons.prems have s: "denied x (fst (step cb x))"
      "state (snd (step cb x)) = StateHardOpen"
      "failureInterpreter (snd (step cb x)) = failureInterpreter cb"
    using step_HardOpen [of cb x] by simp_all
  from Cons.prems s(3)
  have "list_all (keepsTripped (failureInterpreter (snd (step cb x)))) xs" by simp
  with Cons.IH [OF s(2)] s show ?case
    by (simp add: split_beta)
qed

lemma Trip_HardOpen_kept:
  "list_all (keepsTripped (failureInterpreter cb)) ops \<Longrightarrow>
   list_all2 denied ops (fst (run (Trip cb) ops))
   \<and> state (snd (run (Trip cb) ops)) = StateHardOpen"
  by (rule run_HardOpen) (simp_all add: Trip_def)

text \<open>
  C1 says that after \<open>Trip\<close> every \<open>ShouldTry\<close> answers false until \<open>Reset\<close> is called. On
  the default breaker: an attempt is admitted, \<open>Trip\<close> puts the breaker in
  \<open>StateHardOpen\<close>, \<open>MarkResult\<close> with \<^verbatim>\<open>nil\<close> returns true, and the \<open>ShouldTry\<close> that
  follows answers true in state \<open>StateClosed\<close>. The same happens when \<open>MarkResult\<close> with
  \<^verbatim>\<open>nil\<close> comes right after \<open>Trip\<close>. \<^verbatim>\<open>Reset()\<close> is not among the calls.
\<close>

theorem Trip_undone_by_MarkResult:
  "state (snd (run (newCircuitBreaker []) [OpShouldTry 0 0, OpTrip])) = StateHardOpen
   \<and> fst (run (newCircuitBreaker []) successAfterTrip) =
       [Answer True, Done, Answer True, Answer True]
   \<and> state (snd (run (newCircuitBreaker []) successAfterTrip)) = StateClosed
   \<and> state (snd (run (newCircuitBreaker []) [OpTrip])) = StateHardOpen
   \<and> fst (run (newCircuitBreaker []) tripThenSuccess) = [Done, Answer True, Answer True]
   \<and> state (snd (run (newCircuitBreaker []) tripThenSuccess)) = StateClosed
   \<and> OpReset \<notin> set successAfterTrip \<and> OpReset \<notin> set tripThenSuccess"
  by (simp add: successAfterTrip_def tripThenSuccess_def exec_defs)

text \<open>
  C10. In state \<open>StateHardOpen\<close>, \<open>ShouldTry\<close> answers false and returns the breaker as it
  was: no field changes, so neither the trip condition nor the backoff generator was
  called and nothing was reported; the answer does not depend on the random draw.
\<close>

theorem ShouldTry_HardOpen:
  "state cb = StateHardOpen \<Longrightarrow> ShouldTry cb now rnd = (False, cb)"
  by (simp add: ShouldTry_def)

theorem ShouldTry_HardOpen_witness:
  "state (Trip (newCircuitBreaker [])) = StateHardOpen
   \<and> ShouldTry (Trip (newCircuitBreaker [])) 0 0 = (False, Trip (newCircuitBreaker []))"
proof -
  have h: "state (Trip (newCircuitBreaker [])) = StateHardOpen"
    by (simp add: Trip_def)
  from h ShouldTry_HardOpen [OF h, of 0 0] show ?thesis by simp
qed

subsection \<open>The transition to half-closed\<close>

text \<open>
  C2, as stated, fails: \<open>resetTimeoutElapsed\<close> answers false unless the state is
  \<open>StateOpen\<close>. The breaker has retry probability 1 and the draw is 0. At the first
  \<open>ShouldTry\<close> after the trip, 2 s after the failure and with a reset timeout of 1 s, the
  breaker opens and refuses. At a \<open>ShouldTry\<close> in state \<open>StateHalfClosed\<close>, where both
  fields are set on entry and 4 s have passed, it opens and refuses as well.
\<close>

theorem ShouldTry_fresh_trip_counterexample:
  "tc_ShouldTrip (tripCondition (trippedBreaker 1))
   \<and> lastFailureTime (trippedBreaker 1) = Some 0
   \<and> halfClosedRetryProbability (trippedBreaker 1) = 1
   \<and> fst (ShouldTry (trippedBreaker 1) 2000000000 0) = False
   \<and> state (snd (ShouldTry (trippedBreaker 1) 2000000000 0)) = StateOpen
   \<and> lastFailureTime (snd (ShouldTry (trippedBreaker 1) 2000000000 0)) = Some 0
   \<and> resetTimeout (snd (ShouldTry (trippedBreaker 1) 2000000000 0)) = Some 1000000000
   \<and> 1000000000 \<le> time_Sub 2000000000 0
   \<and> tc_ShouldTrip (tripCondition (halfClosedBreaker 1))
   \<and> lastFailureTime (halfClosedBreaker 1) = Some 0
   \<and> resetTimeout (halfClosedBreaker 1) = Some 1000000000
   \<and> 1000000000 \<le> time_Sub 4000000000 0
   \<and> halfClosedRetryProbability (halfClosedBreaker 1) = 1
   \<and> fst (ShouldTry (halfClosedBreaker 1) 4000000000 0) = False
   \<and> state (snd (ShouldTry (halfClosedBreaker 1) 4000000000 0)) = StateOpen"
  by (simp add: exec_defs)

lemma ShouldTry_trip_Open_frame:
  "state cb = StateOpen \<Longrightarrow> tc_ShouldTrip (tripCondition cb) \<Longrightarrow>
   resetTimeout (snd (ShouldTry cb now rnd)) = resetTimeout cb
   \<and> resetBackoff (snd (ShouldTry cb now rnd)) = resetBackoff cb"
  by (simp add: ShouldTry_def Let_def)

lemma ShouldTry_trip_Closed_timeout:
  "state cb = StateClosed \<Longrightarrow> tc_ShouldTrip (tripCondition cb) \<Longrightarrow>
   resetTimeout (snd (ShouldTry cb now rnd)) =
     Some (bo_NextInterval (bo_Reset (resetBackoff cb)))
   \<and> resetBackoff (snd (ShouldTry cb now rnd)) =
       bo_afterNextInterval (bo_Reset (resetBackoff cb))"
  by (simp add: ShouldTry_def Let_def)

lemma ShouldTry_trip_HalfClosed_timeout:
  "state cb = StateHalfClosed \<Longrightarrow> tc_ShouldTrip (tripCondition cb) \<Longrightarrow>
   resetTimeout (snd (ShouldTry cb now rnd)) = Some (bo_NextInterval (resetBackoff cb))
   \<and> resetBackoff (snd (ShouldTry cb now rnd)) = bo_afterNextInterval (resetBackoff cb)"
  by (simp add: ShouldTry_def Let_def)

text \<open>
  C2, amended. When the trip condition says to trip: if the state is \<open>StateOpen\<close>, both
  fields are set and the time since \<open>lastFailureTime\<close> is at least \<open>resetTimeout\<close>, then
  \<open>ShouldTry\<close> moves to \<open>StateHalfClosed\<close> and answers whether the draw is below
  \<open>halfClosedRetryProbability\<close>, leaving \<open>resetTimeout\<close> and the backoff generator as they
  were. If the state is \<open>StateClosed\<close>, as at the first \<open>ShouldTry\<close> after a fresh trip, it
  resets the generator, stores the generator's next interval in \<open>resetTimeout\<close>, moves to
  \<open>StateOpen\<close> and answers false, whatever time has passed. If the state is
  \<open>StateHalfClosed\<close>, it does the same without resetting the generator.
\<close>

theorem ShouldTry_HalfClosed_only_from_Open:
  "tc_ShouldTrip (tripCondition cb) \<Longrightarrow>
   (state cb = StateOpen \<longrightarrow> lastFailureTime cb = Some failed \<longrightarrow>
      resetTimeout cb = Some timeout \<longrightarrow> timeout \<le> time_Sub now failed \<longrightarrow>
      fst (ShouldTry cb now rnd) = (rnd < halfClosedRetryProbability cb)
      \<and> state (snd (ShouldTry cb now rnd)) = StateHalfClosed
      \<and> resetTimeout (snd (ShouldTry cb now rnd)) = Some timeout
      \<and> resetBackoff (snd (ShouldTry cb now rnd)) = resetBackoff cb)
   \<and> (state cb = StateClosed \<longrightarrow>
      fst (ShouldTry cb now rnd) = False
      \<and> state (snd (ShouldTry cb now rnd)) = StateOpen
      \<and> resetTimeout (snd (ShouldTry cb now rnd)) =
          Some (bo_NextInterval (bo_Reset (resetBackoff cb)))
      \<and> resetBackoff (snd (ShouldTry cb now rnd)) =
          bo_afterNextInterval (bo_Reset (resetBackoff cb)))
   \<and> (state cb = StateHalfClosed \<longrightarrow>
      fst (ShouldTry cb now rnd) = False
      \<and> state (snd (ShouldTry cb now rnd)) = StateOpen
      \<and> resetTimeout (snd (ShouldTry cb now rnd)) = Some (bo_NextInterval (resetBackoff cb))
      \<and> resetBackoff (snd (ShouldTry cb now rnd)) = bo_afterNextInterval (resetBackoff cb))"
  using ShouldTry_trip_Open_elapsed [of cb failed timeout now rnd]
    ShouldTry_trip_Open_frame [of cb now rnd]
    ShouldTry_trip_not_Open [of cb now rnd]
    ShouldTry_trip_Closed_timeout [of cb now rnd]
    ShouldTry_trip_HalfClosed_timeout [of cb now rnd]
  by auto

theorem ShouldTry_HalfClosed_only_from_Open_witness:
  "tc_ShouldTrip (tripCondition (openBreaker 1))
   \<and> state (openBreaker 1) = StateOpen
   \<and> lastFailureTime (openBreaker 1) = Some 0
   \<and> resetTimeout (openBreaker 1) = Some 1000000000
   \<and> 1000000000 \<le> time_Sub 3000000000 0
   \<and> fst (ShouldTry (openBreaker 1) 3000000000 0) = True
   \<and> state (snd (ShouldTry (openBreaker 1) 3000000000 0)) = StateHalfClosed
   \<and> resetTimeout (snd (ShouldTry (openBreaker 1) 3000000000 0)) = Some 1000000000
   \<and> tc_ShouldTrip (tripCondition handedOverBreaker)
   \<and> state handedOverBreaker = StateClosed
   \<and> resetBackoff handedOverBreaker = doublingBackoff 100 800
   \<and> fst (ShouldTry handedOverBreaker 3000000000 0) = False
   \<and> state (snd (ShouldTry handedOverBreaker 3000000000 0)) = StateOpen
   \<and> resetTimeout (snd (ShouldTry handedOverBreaker 3000000000 0)) = Some 100
   \<and> resetBackoff (snd (ShouldTry handedOverBreaker 3000000000 0)) = doublingBackoff 100 200
   \<and> tc_ShouldTrip (tripCondition wornHalfClosedBreaker)
   \<and> state wornHalfClosedBreaker = StateHalfClosed
   \<and> resetBackoff wornHalfClosedBreaker = doublingBackoff 100 800
   \<and> fst (ShouldTry wornHalfClosedBreaker 3000000000 0) = False
   \<and> state (snd (ShouldTry wornHalfClosedBreaker 3000000000 0)) = StateOpen
   \<and> resetTimeout (snd (ShouldTry wornHalfClosedBreaker 3000000000 0)) = Some 800
   \<and> resetBackoff (snd (ShouldTry wornHalfClosedBreaker 3000000000 0)) =
       doublingBackoff 100 1600"
proof -
  have h: "tc_ShouldTrip (tripCondition handedOverBreaker)"
      "state handedOverBreaker = StateClosed"
      "resetBackoff handedOverBreaker = doublingBackoff 100 800"
    by (simp_all add: handedOverBreaker_def exec_defs)
  have w: "tc_ShouldTrip (tripCondition wornHalfClosedBreaker)"
      "state wornHalfClosedBreaker = StateHalfClosed"
      "resetBackoff wornHalfClosedBreaker = doublingBackoff 100 800"
    by (simp_all add: wornHalfClosedBreaker_def wornBreaker_def exec_defs)
  from h w
    ShouldTry_HalfClosed_only_from_Open [of "openBreaker 1" 0 1000000000 3000000000 0]
    ShouldTry_HalfClosed_only_from_Open [of handedOverBreaker 0 0 3000000000 0]
    ShouldTry_HalfClosed_only_from_Open [of wornHalfClosedBreaker 0 0 3000000000 0]
  show ?thesis
    by (simp add: openBreaker_fields time_Sub_def minDuration_def maxDuration_def)
qed

text \<open>
  C8. When the state is \<open>StateOpen\<close>, the trip condition says to trip and the reset timeout
  has elapsed since the last failure, \<open>ShouldTry\<close> takes the half-closed branch. There,
  with retry probability 0 it answers false for every draw (draws of \<^verbatim>\<open>rand.Float64\<close> are
  at least 0), and with retry probability 1 it answers true for every draw below 1.
\<close>

theorem ShouldTry_HalfClosed_probability:
  assumes "state cb = StateOpen" and "tc_ShouldTrip (tripCondition cb)"
    and "lastFailureTime cb = Some failed" and "resetTimeout cb = Some timeout"
    and "timeout \<le> time_Sub now failed"
  shows "state (snd (ShouldTry cb now rnd)) = StateHalfClosed
    \<and> (halfClosedRetryProbability cb = 0 \<longrightarrow> 0 \<le> rnd \<longrightarrow> fst (ShouldTry cb now rnd) = False)
    \<and> (halfClosedRetryProbability cb = 1 \<longrightarrow> rnd < 1 \<longrightarrow> fst (ShouldTry cb now rnd) = True)"
  using ShouldTry_trip_Open_elapsed [OF assms, of rnd] by auto

theorem ShouldTry_HalfClosed_probability_witness:
  "state (openBreaker 0) = StateOpen \<and> tc_ShouldTrip (tripCondition (openBreaker 0))
   \<and> lastFailureTime (openBreaker 0) = Some 0 \<and> resetTimeout (openBreaker 0) = Some 1000000000
   \<and> 1000000000 \<le> time_Sub 1000000000 0
   \<and> halfClosedRetryProbability (openBreaker 0) = 0
   \<and> fst (ShouldTry (openBreaker 0) 1000000000 0) = False
   \<and> halfClosedRetryProbability (openBreaker 1) = 1
   \<and> fst (ShouldTry (openBreaker 1) 1000000000 (999 / 1000)) = True"
  using ShouldTry_HalfClosed_probability [of "openBreaker 0" 0 1000000000 1000000000 0]
    ShouldTry_HalfClosed_probability [of "openBreaker 1" 0 1000000000 1000000000 "999 / 1000"]
  by (simp add: openBreaker_fields time_Sub_def minDuration_def maxDuration_def)

subsection \<open>Recording results\<close>

text \<open>
  What \<open>MarkResult\<close> does with \<^verbatim>\<open>nil\<close>, for every breaker: it returns true and clears
  \<open>resetTimeout\<close>, and \<open>lastFailureTime\<close> stays as it was. The earlier breaker's \<^verbatim>\<open>Reset\<close>
  clears both fields.
\<close>

lemma MarkResult_nil:
  "fst (MarkResult cb None now) = True
   \<and> resetTimeout (snd (MarkResult cb None now)) = None
   \<and> lastFailureTime (snd (MarkResult cb None now)) = lastFailureTime cb"
  by (simp add: MarkResult_def Reset_fields)

lemma legacy_Reset_clears:
  "legacy_lastFailureTime (legacy_Reset cb) = None
   \<and> legacy_resetTimeout (legacy_Reset cb) = None"
  by (simp add: legacy_Reset_def recordSuccess_def Let_def)

text \<open>
  C3 says that after \<open>MarkResult\<close> with \<^verbatim>\<open>nil\<close> the field \<open>lastFailureTime\<close> is unset. On the
  default breaker with one failure recorded at time 7, \<open>MarkResult\<close> with \<^verbatim>\<open>nil\<close> returns
  true and clears \<open>resetTimeout\<close>, and \<open>lastFailureTime\<close> is still the time 7.
\<close>

theorem MarkResult_nil_keeps_lastFailureTime:
  "lastFailureTime failedBreaker = Some 7
   \<and> fst (MarkResult failedBreaker None 9) = True
   \<and> resetTimeout (snd (MarkResult failedBreaker None 9)) = None
   \<and> lastFailureTime (snd (MarkResult failedBreaker None 9)) = Some 7"
  by (simp add: exec_defs)

text \<open>
  C5. For a non-nil error \<open>e\<close>, \<open>MarkResult\<close> returns false exactly when \<open>e\<close> is
  \<open>ErrInvocationTimeout\<close> or the failure interpreter says to trip on \<open>e\<close>. In that case
  \<open>lastFailureTime\<close> is the current time and the trip condition has received \<open>Failure\<close>;
  otherwise \<open>lastFailureTime\<close> is untouched and the trip condition has received
  \<open>Success\<close>. For \<open>ErrInvocationTimeout\<close> the failure is recorded whatever the failure
  interpreter is.
\<close>

theorem MarkResult_error:
  "fst (MarkResult cb (Some e) now) = (\<not> (e = ErrInvocationTimeout \<or> failureInterpreter cb e))
   \<and> (e = ErrInvocationTimeout \<or> failureInterpreter cb e \<longrightarrow>
        lastFailureTime (snd (MarkResult cb (Some e) now)) = Some now
        \<and> tripCondition (snd (MarkResult cb (Some e) now)) = tc_Failure (tripCondition cb))
   \<and> (\<not> (e = ErrInvocationTimeout \<or> failureInterpreter cb e) \<longrightarrow>
        lastFailureTime (snd (MarkResult cb (Some e) now)) = lastFailureTime cb
        \<and> tripCondition (snd (MarkResult cb (Some e) now)) = tc_Success (tripCondition cb))
   \<and> fst (MarkResult cb (Some ErrInvocationTimeout) now) = False
   \<and> lastFailureTime (snd (MarkResult cb (Some ErrInvocationTimeout) now)) = Some now
   \<and> tripCondition (snd (MarkResult cb (Some ErrInvocationTimeout) now)) =
       tc_Failure (tripCondition cb)"
  by (simp add: MarkResult_def Reset_fields)

theorem MarkResult_error_witness:
  "(\<forall>err. \<not> failureInterpreter ignoringBreaker err)
   \<and> fst (MarkResult ignoringBreaker (Some ErrInvocationTimeout) 4) = False
   \<and> lastFailureTime (snd (MarkResult ignoringBreaker (Some ErrInvocationTimeout) 4)) = Some 4
   \<and> tripCondition (snd (MarkResult ignoringBreaker (Some ErrInvocationTimeout) 4)) =
       tc_Failure (tripCondition ignoringBreaker)
   \<and> fst (MarkResult ignoringBreaker (Some (OtherError ''boom'')) 4) = True
   \<and> lastFailureTime (snd (MarkResult ignoringBreaker (Some (OtherError ''boom'')) 4)) = None"
proof -
  have fi: "\<forall>err. \<not> failureInterpreter ignoringBreaker err"
    by (simp add: ignoringBreaker_def exec_defs)
  have lft: "lastFailureTime ignoringBreaker = None"
    by (simp add: ignoringBreaker_def exec_defs)
  from fi lft MarkResult_error [of ignoringBreaker ErrInvocationTimeout 4]
    MarkResult_error [of ignoringBreaker "OtherError ''boom''" 4]
  show ?thesis by simp
qed

text \<open>
  C9. For an error that is \<open>ErrInvocationTimeout\<close> or that the failure interpreter says to
  trip on, \<open>MarkResult\<close> changes \<open>lastFailureTime\<close> and the trip condition and nothing
  else: the state, \<open>resetTimeout\<close>, the backoff generator and the collector are as before.
  If the breaker was closed and the trip condition now says to trip, it is the next
  \<open>ShouldTry\<close> that opens it.
\<close>

theorem MarkResult_failure_keeps_state:
  assumes "e = ErrInvocationTimeout \<or> failureInterpreter cb e"
  shows "snd (MarkResult cb (Some e) now) =
      cb\<lparr>lastFailureTime := Some now, tripCondition := tc_Failure (tripCondition cb)\<rparr>
    \<and> state (snd (MarkResult cb (Some e) now)) = state cb
    \<and> resetTimeout (snd (MarkResult cb (Some e) now)) = resetTimeout cb
    \<and> resetBackoff (snd (MarkResult cb (Some e) now)) = resetBackoff cb
    \<and> collector (snd (MarkResult cb (Some e) now)) = collector cb
    \<and> (state cb = StateClosed \<longrightarrow> tc_ShouldTrip (tc_Failure (tripCondition cb)) \<longrightarrow>
         state (snd (ShouldTry (snd (MarkResult cb (Some e) now)) later rnd)) = StateOpen)"
  using assms
    ShouldTry_trip_not_Open
      [of "cb\<lparr>lastFailureTime := Some now, tripCondition := tc_Failure (tripCondition cb)\<rparr>"
          later rnd]
  by (auto simp add: MarkResult_def)

theorem MarkResult_failure_keeps_state_witness:
  "failureInterpreter lastStrawBreaker (OtherError ''boom'')
   \<and> state lastStrawBreaker = StateClosed
   \<and> tc_ShouldTrip (tc_Failure (tripCondition lastStrawBreaker))
   \<and> state (snd (MarkResult lastStrawBreaker (Some (OtherError ''boom'')) 4)) = StateClosed
   \<and> state (snd (ShouldTry (snd (MarkResult lastStrawBreaker (Some (OtherError ''boom'')) 4))
                  5 0)) = StateOpen"
proof -
  have a: "failureInterpreter lastStrawBreaker (OtherError ''boom'')"
    by (simp add: lastStrawBreaker_def exec_defs)
  have b: "state lastStrawBreaker = StateClosed"
    by (simp add: lastStrawBreaker_def exec_defs)
  have c: "tc_ShouldTrip (tc_Failure (tripCondition lastStrawBreaker))"
    by (simp add: lastStrawBreaker_def exec_defs)
  note t = MarkResult_failure_keeps_state
    [OF disjI2 [OF a], of 4 5 0]
  from t b have s: "state (snd (MarkResult lastStrawBreaker (Some (OtherError ''boom'')) 4))
      = StateClosed"
    by metis
  from t b c have
    "state (snd (ShouldTry (snd (MarkResult lastStrawBreaker (Some (OtherError ''boom'')) 4))
                  5 0)) = StateOpen"
    by blast
  with a b c s show ?thesis by simp
qed





subsection \<open>Reset\<close>

text \<open>
  C7. With the consecutive-failure trip condition of a positive threshold (the default is
  5), whatever its counter: right after \<open>Reset\<close>, \<open>ShouldTry\<close> answers true, and the backoff
  generator is the one its own \<open>Reset\<close> leaves, before and after that \<open>ShouldTry\<close>. Its
  next interval is therefore the first interval after a reset: the constant of a constant
  generator, the base of a doubling one.
\<close>

theorem Reset_then_ShouldTry:
  assumes "0 < threshold"
    and "tripCondition cb = consecutiveFailureTripCondition threshold count"
  shows "fst (ShouldTry (Reset cb) now rnd) = True
    \<and> state (snd (ShouldTry (Reset cb) now rnd)) = StateClosed
    \<and> resetBackoff (snd (ShouldTry (Reset cb) now rnd)) = bo_Reset (resetBackoff cb)
    \<and> bo_NextInterval (resetBackoff (Reset cb)) = bo_NextInterval (bo_Reset (resetBackoff cb))
    \<and> (resetBackoff cb = NewConstantBackoff interval \<longrightarrow>
         bo_NextInterval (resetBackoff (Reset cb)) = interval)
    \<and> (resetBackoff cb = doublingBackoff base current \<longrightarrow>
         bo_NextInterval (resetBackoff (Reset cb)) = base)"
  using assms ShouldTry_no_trip [of "Reset cb" now rnd]
  by (simp add: Reset_fields)

theorem Reset_then_ShouldTry_witness:
  "(0::nat) < 2
   \<and> tripCondition wornBreaker = consecutiveFailureTripCondition 2 2
   \<and> resetBackoff wornBreaker = doublingBackoff 100 800
   \<and> fst (ShouldTry wornBreaker 502 (9 / 10)) = False
   \<and> bo_NextInterval (resetBackoff wornBreaker) = 800
   \<and> fst (ShouldTry (Reset wornBreaker) 502 (9 / 10)) = True
   \<and> bo_NextInterval (resetBackoff (Reset wornBreaker)) = 100"
proof -
  have tc: "tripCondition wornBreaker = consecutiveFailureTripCondition 2 2"
    by (simp add: wornBreaker_def exec_defs numeral_2_eq_2)
  have bo: "resetBackoff wornBreaker = doublingBackoff 100 800"
    by (simp add: wornBreaker_def exec_defs)
  have before: "fst (ShouldTry wornBreaker 502 (9 / 10)) = False"
    by (simp add: wornBreaker_def exec_defs)
  from tc bo before Reset_then_ShouldTry [of 2 wornBreaker 2 502 "9 / 10" 0 100 800]
  show ?thesis by simp
qed

subsection \<open>The two optional fields\<close>

text \<open>
  C4, as stated, fails: on the default breaker, one recorded failure sets
  \<open>lastFailureTime\<close> while \<open>resetTimeout\<close> is still unset.
\<close>

theorem fields_not_paired_counterexample:
  "failedBreaker =
     snd (run (newCircuitBreaker []) [OpMarkResult (Some (OtherError ''boom'')) 7])
   \<and> lastFailureTime failedBreaker = Some 7 \<and> resetTimeout failedBreaker = None"
  by (simp add: exec_defs)

lemma ShouldTry_timeout_set:
  "(state cb = StateOpen \<or> state cb = StateHalfClosed \<longrightarrow> resetTimeout cb \<noteq> None) \<Longrightarrow>
   (state (snd (ShouldTry cb now rnd)) = StateOpen
      \<or> state (snd (ShouldTry cb now rnd)) = StateHalfClosed \<longrightarrow>
    resetTimeout (snd (ShouldTry cb now rnd)) \<noteq> None)"
  by (auto simp add: ShouldTry_def Let_def split: if_splits)

lemma MarkResult_timeout_set:
  "(state cb = StateOpen \<or> state cb = StateHalfClosed \<longrightarrow> resetTimeout cb \<noteq> None) \<Longrightarrow>
   (state (snd (MarkResult cb err now)) = StateOpen
      \<or> state (snd (MarkResult cb err now)) = StateHalfClosed \<longrightarrow>
    resetTimeout (snd (MarkResult cb err now)) \<noteq> None)"
  by (auto simp add: MarkResult_def Reset_fields split: option.splits if_splits)

lemma Call_timeout_set:
  assumes "state cb = StateOpen \<or> state cb = StateHalfClosed \<longrightarrow> resetTimeout cb \<noteq> None"
  shows "state (snd (Call cb i)) = StateOpen \<or> state (snd (Call cb i)) = StateHalfClosed \<longrightarrow>
    resetTimeout (snd (Call cb i)) \<noteq> None"
proof -
  obtain allowed cb1 where t: "ShouldTry cb (inv_tryNow i) (inv_rnd i) = (allowed, cb1)"
    by (cases "ShouldTry cb (inv_tryNow i) (inv_rnd i)")
  have inv1: "state cb1 = StateOpen \<or> state cb1 = StateHalfClosed \<longrightarrow> resetTimeout cb1 \<noteq> None"
    using ShouldTry_timeout_set [OF assms, of "inv_tryNow i" "inv_rnd i"] t by simp
  define cb2 where "cb2 = report (ReportDuration EventTypeRunDuration (inv_elapsed i)) cb1"
  have inv2: "state cb2 = StateOpen \<or> state cb2 = StateHalfClosed \<longrightarrow> resetTimeout cb2 \<noteq> None"
    using inv1 by (simp add: cb2_def)
  show ?thesis
    using inv1 MarkResult_timeout_set [OF inv2]
    by (simp add: Call_def t Let_def split_beta cb2_def)
qed

lemma step_timeout_set:
  assumes "state cb = StateOpen \<or> state cb = StateHalfClosed \<longrightarrow> resetTimeout cb \<noteq> None"
  shows "state (snd (step cb x)) = StateOpen \<or> state (snd (step cb x)) = StateHalfClosed \<longrightarrow>
    resetTimeout (snd (step cb x)) \<noteq> None"
proof (cases x)
  case OpTrip
  with assms show ?thesis by (simp add: Trip_def)
next
  case OpReset
  then show ?thesis by (simp add: Reset_fields)
next
  case (OpShouldTry now rnd)
  with ShouldTry_timeout_set [OF assms, of now rnd] show ?thesis
    by (simp add: split_beta)
next
  case (OpMarkResult err now)
  with MarkResult_timeout_set [OF assms, of err now] show ?thesis
    by (simp add: split_beta)
next
  case (OpCall i)
  with Call_timeout_set [OF assms, of i] show ?thesis
    by (simp add: split_beta)
qed

lemma run_timeout_set:
  "(state cb = StateOpen \<or> state cb = StateHalfClosed \<longrightarrow> resetTimeout cb \<noteq> None) \<Longrightarrow>
   (state (snd (run cb ops)) = StateOpen \<or> state (snd (run cb ops)) = StateHalfClosed \<longrightarrow>
    resetTimeout (snd (run cb ops)) \<noteq> None)"
proof (induction ops arbitrary: cb)
  case Nil
  then show ?case by simp
next
  case (Cons x xs)
  from Cons.IH [OF step_timeout_set [OF Cons.prems, of x]] show ?case
    by (simp add: split_beta)
qed

lemma resetTimeoutElapsed_both_set:
  "resetTimeoutElapsed cb now \<Longrightarrow>
   state cb = StateOpen \<and> lastFailureTime cb \<noteq> None \<and> resetTimeout cb \<noteq> None"
  by (simp add: resetTimeoutElapsed_def split: if_splits option.splits)

text \<open>
  C4, amended. The two fields are written apart: a recorded failure sets
  \<open>lastFailureTime\<close> only, \<open>ShouldTry\<close> sets \<open>resetTimeout\<close> only. In every state reached
  from a new breaker by \<open>Trip\<close>, \<open>Reset\<close>, \<open>ShouldTry\<close>, \<open>MarkResult\<close> and \<open>Call\<close>,
  \<open>resetTimeout\<close> is set whenever the state is \<open>StateOpen\<close> or \<open>StateHalfClosed\<close>, and
  \<open>resetTimeoutElapsed\<close>, which reads the two together, answers true only if both are set.
\<close>

theorem reachable_resetTimeout_set:
  "cb = snd (run (newCircuitBreaker configs) ops) \<Longrightarrow>
   (state cb = StateOpen \<or> state cb = StateHalfClosed \<longrightarrow> resetTimeout cb \<noteq> None)
   \<and> (resetTimeoutElapsed cb now \<longrightarrow> lastFailureTime cb \<noteq> None \<and> resetTimeout cb \<noteq> None)"
  using run_timeout_set [of "newCircuitBreaker configs" ops]
    resetTimeoutElapsed_both_set [of cb now]
  by (auto simp add: newCircuitBreaker_state)

theorem reachable_resetTimeout_set_witness:
  "state (snd (run (newCircuitBreaker [WithTripCondition (NewConsecutiveFailureTripCondition 1)])
                tripThenOpen)) = StateOpen
   \<and> resetTimeoutElapsed
       (snd (run (newCircuitBreaker [WithTripCondition (NewConsecutiveFailureTripCondition 1)])
                 tripThenOpen)) 3000000000
   \<and> lastFailureTime
       (snd (run (newCircuitBreaker [WithTripCondition (NewConsecutiveFailureTripCondition 1)])
                 tripThenOpen)) \<noteq> None
   \<and> resetTimeout
       (snd (run (newCircuitBreaker [WithTripCondition (NewConsecutiveFailureTripCondition 1)])
                 tripThenOpen)) \<noteq> None"
proof -
  let ?cb = "snd (run (newCircuitBreaker
                [WithTripCondition (NewConsecutiveFailureTripCondition 1)]) tripThenOpen)"
  have s: "state ?cb = StateOpen"
    by (simp add: tripThenOpen_def exec_defs)
  have e: "resetTimeoutElapsed ?cb 3000000000"
    by (simp add: tripThenOpen_def exec_defs)
  from s e reachable_resetTimeout_set
    [OF refl, of "[WithTripCondition (NewConsecutiveFailureTripCondition 1)]"
       tripThenOpen 3000000000]
  show ?thesis by simp
qed

end
